theory Spec2Isabelle
  imports Main "HOL-Library.AList"
begin

section \<open>Aware Citizen: the scraper, the evaluator and the Analyze action of main.py\<close>

text \<open>
  Python strings are modelled as \<^typ>\<open>string\<close>, read as sequences of code points
  below 256. On these code points the regular-expression class \<^verbatim>\<open>\d\<close> is exactly
  the ten ASCII digits, and \<^verbatim>\<open>str.lower\<close> maps one character to one character.
\<close>

subsection \<open>Characters\<close>

definition newline :: char where
  "newline = CHR 0x0A"

definition is_digit :: "char \<Rightarrow> bool" where
  "is_digit c = (48 \<le> (of_char c :: nat) \<and> (of_char c :: nat) \<le> 57)"

definition digit_val :: "char \<Rightarrow> int" where
  "digit_val c = int (of_char c) - 48"

text \<open>\<^verbatim>\<open>str.lower\<close> on one code point below 256: A-Z and the accented capitals
  (192-222 without the multiplication sign 215) move up by 32.\<close>

definition lower_char :: "char \<Rightarrow> char" where
  "lower_char c =
     (let n = (of_char c :: nat)
      in if (65 \<le> n \<and> n \<le> 90) \<or> (192 \<le> n \<and> n \<le> 222 \<and> n \<noteq> 215)
         then char_of (n + 32) else c)"

definition lower :: "string \<Rightarrow> string" where
  "lower s = map lower_char s"

subsection \<open>The score pattern: \<^verbatim>\<open>re.search(r"score.*?(\d{1,2})", content, re.IGNORECASE)\<close>\<close>

text \<open>A literal of the pattern under IGNORECASE, matched at the head of the text;
  the result is the text left after it.\<close>

fun match_literal :: "string \<Rightarrow> string \<Rightarrow> string option" where
  "match_literal [] s = Some s"
| "match_literal (p # ps) [] = None"
| "match_literal (p # ps) (c # cs) =
     (if lower_char c = lower_char p then match_literal ps cs else None)"

text \<open>The group \<^verbatim>\<open>(\d{1,2})\<close> ends the pattern, so the greedy repetition takes
  two digits when it can and one otherwise; the result is the captured group.\<close>

fun match_digits :: "string \<Rightarrow> string option" where
  "match_digits [] = None"
| "match_digits [a] = (if is_digit a then Some [a] else None)"
| "match_digits (a # b # s) =
     (if is_digit a then (if is_digit b then Some [a, b] else Some [a]) else None)"

text \<open>\<^verbatim>\<open>.*?(\d{1,2})\<close>: the lazy repetition first tries the group where it stands,
  and only on failure lets the dot take one more character; the dot (no DOTALL flag)
  takes every character but the line feed.\<close>

fun match_lazy :: "string \<Rightarrow> string option" where
  "match_lazy [] = None"
| "match_lazy (c # cs) =
     (case match_digits (c # cs) of
        Some g \<Rightarrow> Some g
      | None \<Rightarrow> if c \<noteq> newline then match_lazy cs else None)"

definition match_here :: "string \<Rightarrow> string option" where
  "match_here s =
     (case match_literal ''score'' s of None \<Rightarrow> None | Some rest \<Rightarrow> match_lazy rest)"

text \<open>\<^verbatim>\<open>re.search\<close> tries the pattern at each start position from the left and
  returns the first match; the result is group 1 of that match.\<close>

fun re_search :: "string \<Rightarrow> string option" where
  "re_search [] = match_here []"
| "re_search (c # cs) =
     (case match_here (c # cs) of Some g \<Rightarrow> Some g | None \<Rightarrow> re_search cs)"

text \<open>\<^verbatim>\<open>int(...)\<close> on a string of decimal digits.\<close>

definition py_int :: "string \<Rightarrow> int" where
  "py_int s = foldl (\<lambda>acc c. 10 * acc + digit_val c) 0 s"

text \<open>Line 78: \<^verbatim>\<open>min(max(score, 0), 20)\<close>.\<close>

definition clamp_score :: "int \<Rightarrow> int" where
  "clamp_score score = min (max score 0) 20"

text \<open>Lines 75-80 of \<^verbatim>\<open>evaluate_parties\<close>: the value stored in
  \<^verbatim>\<open>party_scores[party]\<close>, with \<open>None\<close> for Python's \<^verbatim>\<open>None\<close>.\<close>

definition extract_score :: "string \<Rightarrow> int option" where
  "extract_score content =
     (case re_search content of
        Some g \<Rightarrow> Some (clamp_score (py_int g))
      | None \<Rightarrow> None)"

subsection \<open>What the score pattern is said to find\<close>

text \<open>The word "score", in any letter case, stands at the head of the text.\<close>

definition score_at :: "string \<Rightarrow> bool" where
  "score_at t = (lower (take 5 t) = ''score'')"

text \<open>Following the spec's words: the word at the head of the text is followed, with
  arbitrary characters in between, by a digit.\<close>

definition score_then_number :: "string \<Rightarrow> bool" where
  "score_then_number t = (score_at t \<and> filter is_digit (drop 5 t) \<noteq> [])"

text \<open>What follows the word up to the next line feed, and the same condition with the
  digit on that stretch.\<close>

definition rest_of_line :: "string \<Rightarrow> string" where
  "rest_of_line t = takeWhile (\<lambda>c. c \<noteq> newline) (drop 5 t)"

definition scored_line :: "string \<Rightarrow> bool" where
  "scored_line t = (score_at t \<and> filter is_digit (rest_of_line t) \<noteq> [])"

text \<open>The first digit after the word on its line, with the next character when that is
  a digit too.\<close>

definition first_number :: "string \<Rightarrow> string" where
  "first_number t =
     take 2 (takeWhile is_digit (dropWhile (\<lambda>c. \<not> is_digit c) (rest_of_line t)))"

subsection \<open>The scraper: \<^verbatim>\<open>scrape_party_info\<close>\<close>

datatype exn = ConnectionError | KeyError | NameError | TypeError | ValueError | APIError

text \<open>A Python dict is an association list in insertion order with distinct keys.\<close>

definition country_map :: "(string \<times> string) list" where
  "country_map =
     [(''United States'', ''the_United_States''),
      (''United Kingdom'', ''the_United_Kingdom''),
      (''Philippines'', ''the_Philippines'')]"

text \<open>\<^verbatim>\<open>d.get(key, default)\<close>.\<close>

definition dict_get :: "('k \<times> 'v) list \<Rightarrow> 'k \<Rightarrow> 'v \<Rightarrow> 'v" where
  "dict_get d k dflt = (case map_of d k of Some v \<Rightarrow> v | None \<Rightarrow> dflt)"

text \<open>\<^verbatim>\<open>s.replace(old, new)\<close> for one-character \<open>old\<close> and \<open>new\<close>.\<close>

fun replace_char :: "char \<Rightarrow> char \<Rightarrow> string \<Rightarrow> string" where
  "replace_char old new [] = []"
| "replace_char old new (c # cs) = (if c = old then new else c) # replace_char old new cs"

definition url_template :: string where
  "url_template = ''https://en.wikipedia.org/wiki/List_of_political_parties_in_''"

text \<open>Lines 32-38.\<close>

definition scrape_url :: "string \<Rightarrow> string" where
  "scrape_url country =
     (let wiki_country = dict_get country_map country country
      in url_template @ replace_char (CHR '' '') (CHR ''_'') wiki_country)"

text \<open>The tree that \<^verbatim>\<open>BeautifulSoup(response.content, 'html.parser')\<close> builds: an
  element has its (lower-case) tag name, its attribute dict and its children.\<close>

datatype node = Element string "(string \<times> string) list" "node list" | Text string

text \<open>All elements below a node in document order, each with the tag names of its
  ancestors, the nearest first.\<close>

fun descendants :: "string list \<Rightarrow> node \<Rightarrow> (string list \<times> node) list" where
  "descendants anc (Text t) = []"
| "descendants anc (Element tg at ch) =
     (anc, Element tg at ch) # concat (map (descendants (tg # anc)) ch)"

definition soup_descendants :: "node list \<Rightarrow> (string list \<times> node) list" where
  "soup_descendants doc = concat (map (descendants []) doc)"

text \<open>The selector \<^verbatim>\<open>ul li a\<close>: an \<^verbatim>\<open>a\<close> element some ancestor of which is an
  \<^verbatim>\<open>li\<close> that has an \<^verbatim>\<open>ul\<close> among its own ancestors.\<close>

fun li_in_ul :: "string list \<Rightarrow> bool" where
  "li_in_ul [] = False"
| "li_in_ul (t # ts) = ((t = ''li'' \<and> ''ul'' \<in> set ts) \<or> li_in_ul ts)"

fun matches_ul_li_a :: "string list \<times> node \<Rightarrow> bool" where
  "matches_ul_li_a (anc, Element tg at ch) = (tg = ''a'' \<and> li_in_ul anc)"
| "matches_ul_li_a (anc, Text t) = False"

definition select_ul_li_a :: "node list \<Rightarrow> node list" where
  "select_ul_li_a doc = map snd (filter matches_ul_li_a (soup_descendants doc))"

text \<open>\<^verbatim>\<open>tag.get(key)\<close>: the attribute value, or \<open>None\<close>.\<close>

fun get_attr :: "node \<Rightarrow> string \<Rightarrow> string option" where
  "get_attr (Element tg at ch) key = map_of at key"
| "get_attr (Text t) key = None"

text \<open>\<^verbatim>\<open>sub in s\<close> on strings.\<close>

fun contains :: "string \<Rightarrow> string \<Rightarrow> bool" where
  "contains sub [] = (sub = [])"
| "contains sub (c # cs) = (take (length sub) (c # cs) = sub \<or> contains sub cs)"

text \<open>The loop of lines 43-46; an empty title is falsy.\<close>

fun collect_titles :: "node list \<Rightarrow> string list \<Rightarrow> string list" where
  "collect_titles [] party_names = party_names"
| "collect_titles (li # rest) party_names =
     (case get_attr li ''title'' of
        None \<Rightarrow> collect_titles rest party_names
      | Some title \<Rightarrow>
          if title \<noteq> [] \<and> contains ''party'' (lower title)
          then collect_titles rest (party_names @ [title])
          else collect_titles rest party_names)"

text \<open>What \<^verbatim>\<open>requests.get\<close> returns: the status code and the body, the body given as
  the tree the parser builds from it. A network failure is an exception.\<close>

record response =
  status_code :: nat
  document :: "node list"

definition scrape_party_info :: "(string \<Rightarrow> exn + response) \<Rightarrow> string \<Rightarrow> exn + string list" where
  "scrape_party_info http_get country =
     (case http_get (scrape_url country) of
        Inl e \<Rightarrow> Inl e
      | Inr response \<Rightarrow>
          Inr (take 5 (collect_titles (select_ul_li_a (document response)) [])))"

subsection \<open>What the lister is said to return\<close>

fun is_anchor :: "node \<Rightarrow> bool" where
  "is_anchor (Element tg at ch) = (tg = ''a'')"
| "is_anchor (Text t) = False"

text \<open>The element has a title that contains "party" in any letter case.\<close>

definition has_party_title :: "node \<Rightarrow> bool" where
  "has_party_title el =
     (case get_attr el ''title'' of None \<Rightarrow> False | Some t \<Rightarrow> contains ''party'' (lower t))"

definition title_of :: "node \<Rightarrow> string" where
  "title_of el = (case get_attr el ''title'' of None \<Rightarrow> [] | Some t \<Rightarrow> t)"

text \<open>Following the spec's words: the titles, in document order, of the anchors nested
  in a list item whose title contains "party".\<close>

definition list_item_titles :: "node list \<Rightarrow> string list" where
  "list_item_titles doc =
     map (\<lambda>x. title_of (snd x))
       (filter (\<lambda>x. is_anchor (snd x) \<and> ''li'' \<in> set (fst x) \<and> has_party_title (snd x))
          (soup_descendants doc))"

text \<open>The same with the list item itself nested in an unordered list.\<close>

definition qualifying_titles :: "node list \<Rightarrow> string list" where
  "qualifying_titles doc =
     map (\<lambda>x. title_of (snd x))
       (filter (\<lambda>x. is_anchor (snd x) \<and> li_in_ul (fst x) \<and> has_party_title (snd x))
          (soup_descendants doc))"

subsection \<open>The evaluator: \<^verbatim>\<open>evaluate_parties\<close>\<close>

text \<open>
  The generation service is a parameter. Lines 56-72 build the prompt from the party and
  the country, send it with the fixed system prompt and read
  \<^verbatim>\<open>response.choices[0].message.content\<close>; the service is given the number of
  calls made before this one, the party and the country, and either raises or yields the
  content, which the client library types as an optional string.
\<close>

datatype reply = Raises exn | Content "string option"

type_synonym service = "nat \<Rightarrow> string \<Rightarrow> string \<Rightarrow> reply"

text \<open>The loop of lines 55-80 over the two dicts. \<^verbatim>\<open>d[k] = v\<close> keeps the position
  of a key already there and appends a new one, as \<^const>\<open>AList.update\<close> does. On a
  content of \<^verbatim>\<open>None\<close>, \<^verbatim>\<open>re.search\<close> raises TypeError; the dicts are locals, so
  an exception leaves nothing of them.\<close>

fun evaluate_loop ::
  "service \<Rightarrow> string \<Rightarrow> nat \<Rightarrow> string list \<Rightarrow>
   (string \<times> string) list \<times> (string \<times> int option) list \<Rightarrow>
   exn + (string \<times> string) list \<times> (string \<times> int option) list" where
  "evaluate_loop client country n [] (party_analysis, party_scores) =
     Inr (party_analysis, party_scores)"
| "evaluate_loop client country n (party # rest) (party_analysis, party_scores) =
     (case client n party country of
        Raises e \<Rightarrow> Inl e
      | Content None \<Rightarrow> Inl TypeError
      | Content (Some content) \<Rightarrow>
          evaluate_loop client country (Suc n) rest
            (AList.update party content party_analysis,
             AList.update party (extract_score content) party_scores))"

definition evaluate_parties ::
  "service \<Rightarrow> string list \<Rightarrow> string \<Rightarrow>
   exn + (string \<times> string) list \<times> (string \<times> int option) list" where
  "evaluate_parties client parties country = evaluate_loop client country 0 parties ([], [])"

subsection \<open>The Analyze action of \<^verbatim>\<open>main\<close>: lines 107-136\<close>

text \<open>What the page shows, in order. The fixed texts are constructors; the success
  message carries the number it prints and the chart carries its bars.\<close>

datatype ui_event =
    Spinner_scraping
  | Success_found nat
  | Write_parties "string list"
  | Spinner_evaluating
  | Header_results
  | Subheader string
  | Markdown string
  | Header_scores
  | Pyplot "(string \<times> int) list"
  | Warning_no_scores

text \<open>Line 123: \<^verbatim>\<open>{k: v for k, v in scores.items() if v is not None}\<close>.\<close>

fun valid_scores :: "(string \<times> int option) list \<Rightarrow> (string \<times> int) list" where
  "valid_scores [] = []"
| "valid_scores ((k, None) # rest) = valid_scores rest"
| "valid_scores ((k, Some v) # rest) = (k, v) # valid_scores rest"

text \<open>Lines 117-120.\<close>

fun render_results :: "(string \<times> string) list \<Rightarrow> ui_event list" where
  "render_results [] = []"
| "render_results ((party, analysis) # rest) =
     Subheader party # Markdown analysis # render_results rest"

text \<open>
  The plotting of lines 127-134 is a parameter. matplotlib lays the bars out with the
  party names as tick labels and Streamlit shows the figure, or one of these calls raises
  (a name that is no valid label, such as one holding two dollar signs, makes
  \<^verbatim>\<open>plt.tight_layout()\<close> raise ValueError before \<^verbatim>\<open>st.pyplot\<close>). The plotter is given
  the bars and yields the exception, or \<open>None\<close> when the chart is shown.
\<close>

type_synonym plotter = "(string \<times> int) list \<Rightarrow> exn option"

text \<open>Lines 122-136; a dict is truthy when it is not empty. The result is what is shown
  and the exception that ended the plotting, if any.\<close>

definition render_scores ::
  "plotter \<Rightarrow> (string \<times> int option) list \<Rightarrow> ui_event list \<times> exn option" where
  "render_scores plot scores =
     (let valid = valid_scores scores
      in if valid \<noteq> []
         then (case plot valid of
                 Some e \<Rightarrow> ([Header_scores], Some e)
               | None \<Rightarrow> ([Header_scores, Pyplot valid], None))
         else ([Header_scores, Warning_no_scores], None))"

text \<open>The action gives the events shown and the exception that ended it, if any: no
  \<^verbatim>\<open>try\<close> stands anywhere in the file.\<close>

definition analyze ::
  "(string \<Rightarrow> exn + response) \<Rightarrow> service \<Rightarrow> plotter \<Rightarrow> string \<Rightarrow>
   ui_event list \<times> exn option" where
  "analyze http_get client plot country =
     (case scrape_party_info http_get country of
        Inl e \<Rightarrow> ([Spinner_scraping], Some e)
      | Inr parties \<Rightarrow>
          (let shown = [Spinner_scraping, Success_found (length parties),
                        Write_parties parties, Spinner_evaluating]
           in case evaluate_parties client parties country of
                Inl e \<Rightarrow> (shown, Some e)
              | Inr (results, scores) \<Rightarrow>
                  (case render_scores plot scores of
                     (drawn, failure) \<Rightarrow>
                       (shown @ Header_results # render_results results @ drawn, failure))))"

subsection \<open>Module initialisation: lines 3-16\<close>

text \<open>
  The top of the module binds names in the module's globals, one statement after the
  other. The imported packages are taken to be installed. The secrets store and the
  process environment are inputs. The statements after line 16 are left out: an
  exception in lines 3-16 ends the initialisation before they run.
\<close>

datatype pyval = Module string | Str string | NoneVal | Client pyval

datatype expr =
    Secrets_item string string
  | Getenv string string
  | New_client string string

datatype stmt = Import string string | Assign string expr

record process_env =
  secrets :: "string \<rightharpoonup> string"
  environ :: "string \<rightharpoonup> string"

text \<open>Reading a name that the globals do not bind raises NameError (none of the names
  read at lines 14-16 is a builtin).\<close>

definition lookup_name :: "(string \<times> pyval) list \<Rightarrow> string \<Rightarrow> exn + pyval" where
  "lookup_name globals name =
     (case map_of globals name of None \<Rightarrow> Inl NameError | Some v \<Rightarrow> Inr v)"

text \<open>\<^verbatim>\<open>m.secrets[key]\<close> raises when the store lacks the key; \<^verbatim>\<open>m.getenv(key)\<close>
  gives \<^verbatim>\<open>None\<close> for an unset variable; \<^verbatim>\<open>C(api_key=name)\<close> builds the client.\<close>

fun eval_expr :: "process_env \<Rightarrow> (string \<times> pyval) list \<Rightarrow> expr \<Rightarrow> exn + pyval" where
  "eval_expr w globals (Secrets_item m key) =
     (case lookup_name globals m of
        Inl e \<Rightarrow> Inl e
      | Inr _ \<Rightarrow> (case secrets w key of None \<Rightarrow> Inl KeyError | Some v \<Rightarrow> Inr (Str v)))"
| "eval_expr w globals (Getenv m key) =
     (case lookup_name globals m of
        Inl e \<Rightarrow> Inl e
      | Inr _ \<Rightarrow> Inr (case environ w key of None \<Rightarrow> NoneVal | Some v \<Rightarrow> Str v))"
| "eval_expr w globals (New_client cls name) =
     (case lookup_name globals cls of
        Inl e \<Rightarrow> Inl e
      | Inr _ \<Rightarrow> (case lookup_name globals name of Inl e \<Rightarrow> Inl e | Inr k \<Rightarrow> Inr (Client k)))"

fun exec_stmt :: "process_env \<Rightarrow> (string \<times> pyval) list \<Rightarrow> stmt \<Rightarrow> exn + (string \<times> pyval) list" where
  "exec_stmt w globals (Import m name) = Inr (AList.update name (Module m) globals)"
| "exec_stmt w globals (Assign name e) =
     (case eval_expr w globals e of
        Inl x \<Rightarrow> Inl x
      | Inr v \<Rightarrow> Inr (AList.update name v globals))"

fun exec_stmts :: "process_env \<Rightarrow> (string \<times> pyval) list \<Rightarrow> stmt list \<Rightarrow> exn + (string \<times> pyval) list" where
  "exec_stmts w globals [] = Inr globals"
| "exec_stmts w globals (s # rest) =
     (case exec_stmt w globals s of Inl x \<Rightarrow> Inl x | Inr globals' \<Rightarrow> exec_stmts w globals' rest)"

text \<open>Lines 3-10 and 14-16, in order.\<close>

definition module_top :: "stmt list" where
  "module_top =
     [Import ''requests'' ''requests'',
      Import ''bs4.BeautifulSoup'' ''BeautifulSoup'',
      Import ''pandas'' ''pd'',
      Import ''json'' ''json'',
      Import ''streamlit'' ''st'',
      Import ''matplotlib.pyplot'' ''plt'',
      Import ''re'' ''re'',
      Import ''openai.OpenAI'' ''OpenAI'',
      Assign ''OPENAI_API_KEY'' (Secrets_item ''st'' ''OPENAI_API_KEY''),
      Assign ''OPENAI_API_KEY'' (Getenv ''os'' ''OPENAI_API_KEY''),
      Assign ''client'' (New_client ''OpenAI'' ''OPENAI_API_KEY'')]"

definition module_init :: "process_env \<Rightarrow> exn + (string \<times> pyval) list" where
  "module_init w = exec_stmts w [] module_top"

section \<open>Properties\<close>

subsection \<open>Bounded quantifiers over list ranges, for evaluation\<close>

lemma none_below: "(\<forall>i<n. \<not> P i) = (filter P [0..<n] = [])"
  by (auto simp: filter_empty_conv)

lemma none_upto: "(\<forall>i\<le>n. \<not> P i) = (filter P [0..<Suc n] = [])"
  by (auto simp: filter_empty_conv less_Suc_eq_le)

subsection \<open>The score pattern in closed form\<close>

lemma match_literal_eq:
  "match_literal p s =
     (if length p \<le> length s \<and> lower (take (length p) s) = lower p
      then Some (drop (length p) s) else None)"
  by (induction p s rule: match_literal.induct) (auto simp: lower_def)

lemma match_literal_score:
  "match_literal ''score'' s = (if score_at s then Some (drop 5 s) else None)"
proof -
  have "lower ''score'' = ''score''"
    by (simp add: lower_def lower_char_def)
  moreover have "lower (take 5 s) = ''score'' \<Longrightarrow> 5 \<le> length s"
    using length_map [of lower_char "take 5 s"] by (simp add: lower_def)
  ultimately show ?thesis
    by (auto simp: match_literal_eq score_at_def eval_nat_numeral)
qed

lemma match_digits_eq:
  "match_digits s =
     (if takeWhile is_digit s = [] then None else Some (take 2 (takeWhile is_digit s)))"
  by (induction s rule: match_digits.induct) auto

lemma digit_not_newline: "is_digit c \<Longrightarrow> c \<noteq> newline"
  by (auto simp: is_digit_def newline_def)

lemma takeWhile_digit_line:
  "takeWhile is_digit (takeWhile (\<lambda>c. c \<noteq> newline) s) = takeWhile is_digit s"
  by (induction s) (auto dest: digit_not_newline)

lemma match_lazy_eq:
  "match_lazy s =
     (let d = dropWhile (\<lambda>c. \<not> is_digit c) (takeWhile (\<lambda>c. c \<noteq> newline) s)
      in if d = [] then None else Some (take 2 (takeWhile is_digit d)))"
proof (induction s)
  case Nil
  show ?case by simp
next
  case (Cons c cs)
  show ?case
  proof (cases "is_digit c")
    case True
    then show ?thesis
      by (simp add: match_digits_eq digit_not_newline takeWhile_digit_line)
  next
    case False
    then have "match_digits (c # cs) = None"
      by (simp add: match_digits_eq)
    with False Cons show ?thesis
      by (auto simp: Let_def)
  qed
qed

lemma match_here_eq:
  "match_here t = (if scored_line t then Some (first_number t) else None)"
  by (auto simp: match_here_def match_literal_score match_lazy_eq scored_line_def
      first_number_def rest_of_line_def filter_empty_conv Let_def)

lemma re_search_None: "(re_search s = None) = (\<forall>i\<le>length s. match_here (drop i s) = None)"
proof (induction s)
  case Nil
  show ?case by simp
next
  case (Cons c cs)
  have "(\<forall>i\<le>length (c # cs). match_here (drop i (c # cs)) = None) =
        (match_here (c # cs) = None \<and> (\<forall>i\<le>length cs. match_here (drop i cs) = None))"
    (is "?L = ?R")
  proof
    assume l: ?L
    have "match_here (drop 0 (c # cs)) = None" using l by blast
    moreover have "match_here (drop i cs) = None" if "i \<le> length cs" for i
      using l that by (auto dest: spec [of _ "Suc i"])
    ultimately show ?R by simp
  next
    assume r: ?R
    show ?L
    proof (intro allI impI)
      fix i assume "i \<le> length (c # cs)"
      with r show "match_here (drop i (c # cs)) = None"
        by (cases i) auto
    qed
  qed
  with Cons show ?case
    by (auto split: option.splits)
qed

lemma re_search_first:
  "i \<le> length s \<Longrightarrow> match_here (drop i s) = Some g \<Longrightarrow>
   (\<forall>j<i. match_here (drop j s) = None) \<Longrightarrow> re_search s = Some g"
proof (induction s arbitrary: i)
  case Nil
  then show ?case by simp
next
  case (Cons c cs)
  show ?case
  proof (cases i)
    case 0
    with Cons.prems show ?thesis by simp
  next
    case (Suc k)
    with Cons.prems have h0: "match_here (c # cs) = None"
      by (auto dest: spec [of _ 0])
    have "\<forall>j<k. match_here (drop j cs) = None"
      using Cons.prems(3) Suc by (auto dest: spec [of _ "Suc j" for j])
    with Cons.IH [of k] Cons.prems Suc have "re_search cs = Some g"
      by simp
    with h0 show ?thesis by simp
  qed
qed

lemma scored_line_then_number: "scored_line t \<Longrightarrow> score_then_number t"
proof -
  assume a: "scored_line t"
  have "set (rest_of_line t) \<subseteq> set (drop 5 t)"
    by (auto simp: rest_of_line_def dest: set_takeWhileD)
  with a show ?thesis
    by (auto simp: scored_line_def score_then_number_def filter_empty_conv)
qed

lemma extract_score_first:
  assumes "i \<le> length s" and "scored_line (drop i s)"
    and "\<forall>j<i. \<not> scored_line (drop j s)"
  shows "extract_score s = Some (clamp_score (py_int (first_number (drop i s))))"
proof -
  have "re_search s = Some (first_number (drop i s))"
    using assms by (intro re_search_first [of i]) (simp_all add: match_here_eq)
  then show ?thesis by (simp add: extract_score_def)
qed

lemma extract_score_None: "(extract_score s = None) = (\<forall>i\<le>length s. \<not> scored_line (drop i s))"
proof -
  have "(extract_score s = None) = (re_search s = None)"
    by (simp add: extract_score_def split: option.splits)
  then show ?thesis
    by (auto simp: re_search_None match_here_eq)
qed

subsection \<open>Extracted scores\<close>

lemma extract_score_bounds: "extract_score content = Some v \<Longrightarrow> 0 \<le> v \<and> v \<le> 20"
  by (auto simp: extract_score_def clamp_score_def split: option.splits)

lemma set_update_cases:
  "(a, b) \<in> set (AList.update k v al) \<Longrightarrow> (a, b) = (k, v) \<or> (a, b) \<in> set al"
  by (induction al) (auto split: if_splits)

lemma evaluate_loop_scores_bounds:
  "evaluate_loop client country n parties (pa, ps) = Inr (pa', ps') \<Longrightarrow>
   (\<And>k x. (k, Some x) \<in> set ps \<Longrightarrow> 0 \<le> x \<and> x \<le> 20) \<Longrightarrow>
   (party, Some v) \<in> set ps' \<Longrightarrow> 0 \<le> v \<and> v \<le> 20"
proof (induction parties arbitrary: n pa ps)
  case Nil
  then show ?case by simp
next
  case (Cons p rest)
  from Cons.prems(1) obtain content where
    r: "evaluate_loop client country (Suc n) rest
          (AList.update p content pa, AList.update p (extract_score content) ps) =
        Inr (pa', ps')"
    by (auto split: reply.splits option.splits)
  have "0 \<le> x \<and> x \<le> 20"
    if "(k, Some x) \<in> set (AList.update p (extract_score content) ps)" for k x
  proof -
    from set_update_cases [OF that]
    consider "extract_score content = Some x" | "(k, Some x) \<in> set ps"
      by auto
    then show ?thesis
    proof cases
      case 1
      then show ?thesis by (rule extract_score_bounds)
    next
      case 2
      then show ?thesis by (rule Cons.prems(2))
    qed
  qed
  from Cons.IH [OF r this Cons.prems(3)] show ?case .
qed

text \<open>
  C3. Every score that the evaluator stores after a match lies between 0 and 20, in the
  value computed for one text and in the scores mapping that \<^verbatim>\<open>evaluate_parties\<close>
  returns: the clamp sends a matched number above 20 to 20, as for the text "score: 27",
  and would send a number below 0 to 0.
\<close>

theorem score_in_range:
  "(extract_score content = Some v \<longrightarrow> 0 \<le> v \<and> v \<le> 20) \<and>
   (re_search content = Some g \<and> 20 < py_int g \<longrightarrow> extract_score content = Some 20) \<and>
   (n < 0 \<longrightarrow> clamp_score n = 0) \<and>
   (20 < n \<longrightarrow> clamp_score n = 20) \<and>
   extract_score ''score: 27'' = Some 20 \<and>
   (evaluate_parties client parties country = Inr (analysis, scores) \<and>
    (party, Some x) \<in> set scores \<longrightarrow> 0 \<le> x \<and> x \<le> 20)"
proof -
  have e: "extract_score ''score: 27'' = Some 20"
    by code_simp
  have l: "0 \<le> x \<and> x \<le> 20"
    if "evaluate_parties client parties country = Inr (analysis, scores) \<and>
        (party, Some x) \<in> set scores"
  proof -
    from that have
      r: "evaluate_loop client country 0 parties ([], []) = Inr (analysis, scores)"
      and m: "(party, Some x) \<in> set scores"
      by (simp_all add: evaluate_parties_def)
    show ?thesis
      by (rule evaluate_loop_scores_bounds [OF r _ m]) simp
  qed
  have a: "extract_score content = Some v \<longrightarrow> 0 \<le> v \<and> v \<le> 20"
    by (auto dest: extract_score_bounds)
  have b: "re_search content = Some g \<and> 20 < py_int g \<longrightarrow> extract_score content = Some 20"
    by (auto simp: extract_score_def clamp_score_def)
  have c: "n < 0 \<longrightarrow> clamp_score n = 0" and d: "20 < n \<longrightarrow> clamp_score n = 20"
    by (auto simp: clamp_score_def)
  from a b c d e l show ?thesis
    by blast
qed

theorem score_in_range_witness:
  "extract_score ''Score: 27/20'' = Some 20 \<and> re_search ''Score: 27/20'' = Some ''27'' \<and>
   20 < py_int ''27'' \<and> clamp_score (- 5) = 0 \<and> clamp_score 27 = 20 \<and>
   evaluate_parties (\<lambda>n party country. Content (Some ''Score: 27/20'')) [''Red Party'']
     ''Canada'' = Inr ([(''Red Party'', ''Score: 27/20'')], [(''Red Party'', Some 20)]) \<and>
   (''Red Party'', Some 20) \<in> set [(''Red Party'', Some (20::int))] \<and> (0::int) \<le> 20"
proof -
  let ?client = "\<lambda>(n::nat) (party::string) (country::string). Content (Some ''Score: 27/20'')"
  have r: "re_search ''Score: 27/20'' = Some ''27''"
    by code_simp
  have p: "20 < py_int ''27''"
    by code_simp
  from r p have rp: "re_search ''Score: 27/20'' = Some ''27'' \<and> 20 < py_int ''27''"
    by (rule conjI)
  have a: "extract_score ''Score: 27/20'' = Some 20"
    using score_in_range [where content = "''Score: 27/20''" and g = "''27''",
        THEN conjunct2, THEN conjunct1] rp
    by (rule mp)
  have b: "clamp_score (- 5) = 0"
    using score_in_range [where n = "- 5", THEN conjunct2, THEN conjunct2, THEN conjunct1]
    by simp
  have c: "clamp_score 27 = 20"
    using score_in_range [where n = 27, THEN conjunct2, THEN conjunct2, THEN conjunct2,
        THEN conjunct1]
    by simp
  have e: "evaluate_parties ?client [''Red Party''] ''Canada'' =
      Inr ([(''Red Party'', ''Score: 27/20'')], [(''Red Party'', Some 20)])"
    by code_simp
  have m: "(''Red Party'', Some 20) \<in> set [(''Red Party'', Some (20::int))]"
    by simp
  from e m have em: "evaluate_parties ?client [''Red Party''] ''Canada'' =
      Inr ([(''Red Party'', ''Score: 27/20'')], [(''Red Party'', Some 20)]) \<and>
      (''Red Party'', Some 20) \<in> set [(''Red Party'', Some (20::int))]"
    by (rule conjI)
  have f: "(0::int) \<le> 20 \<and> (20::int) \<le> 20"
    using score_in_range [where client = ?client and parties = "[''Red Party'']" and
        country = "''Canada''" and analysis = "[(''Red Party'', ''Score: 27/20'')]" and
        scores = "[(''Red Party'', Some 20)]" and party = "''Red Party''" and x = 20,
        THEN conjunct2, THEN conjunct2, THEN conjunct2, THEN conjunct2, THEN conjunct2] em
    by (rule mp)
  from a r p b c e m f show ?thesis
    by blast
qed

text \<open>
  C1 as written fails where a line feed stands between the word and the number: the dot
  of the pattern does not cross it.
\<close>

theorem score_presence_counterexample:
  "score_then_number (''Score:'' @ [newline] @ ''15/20'') \<and>
   extract_score (''Score:'' @ [newline] @ ''15/20'') = None"
  by code_simp

text \<open>
  C1, amended. A score is present exactly when some occurrence of the word "score", in
  any letter case, is followed on the same line by a digit; the score then is the clamped
  value of the first one or two digits after the first such occurrence. A text without
  the word has no score.
\<close>

theorem score_presence:
  "((extract_score s \<noteq> None) = (\<exists>i\<le>length s. scored_line (drop i s))) \<and>
   (i \<le> length s \<and> scored_line (drop i s) \<and> (\<forall>j<i. \<not> scored_line (drop j s)) \<longrightarrow>
      extract_score s = Some (clamp_score (py_int (first_number (drop i s))))) \<and>
   ((\<forall>i\<le>length s. \<not> score_at (drop i s)) \<longrightarrow> extract_score s = None)"
proof (intro conjI impI)
  show "(extract_score s \<noteq> None) = (\<exists>i\<le>length s. scored_line (drop i s))"
    by (simp add: extract_score_None)
next
  assume "i \<le> length s \<and> scored_line (drop i s) \<and> (\<forall>j<i. \<not> scored_line (drop j s))"
  then show "extract_score s = Some (clamp_score (py_int (first_number (drop i s))))"
    by (simp add: extract_score_first)
next
  assume "\<forall>i\<le>length s. \<not> score_at (drop i s)"
  then show "extract_score s = None"
    by (simp add: extract_score_None scored_line_def)
qed

theorem score_presence_witness:
  "scored_line (drop 4 ''The score is 14/20'') \<and>
   filter (\<lambda>j. scored_line (drop j ''The score is 14/20'')) [0..<4] = [] \<and>
   extract_score ''The score is 14/20'' = Some 14 \<and>
   filter (\<lambda>i. score_at (drop i ''no rating'')) [0..<Suc (length ''no rating'')] = [] \<and>
   extract_score ''no rating'' = None"
proof -
  have a: "scored_line (drop 4 ''The score is 14/20'')"
    by code_simp
  have b: "filter (\<lambda>j. scored_line (drop j ''The score is 14/20'')) [0..<4] = []"
    by code_simp
  have c: "clamp_score (py_int (first_number (drop 4 ''The score is 14/20''))) = 14"
    by code_simp
  have d: "filter (\<lambda>i. score_at (drop i ''no rating'')) [0..<Suc (length ''no rating'')] = []"
    by code_simp
  have b': "\<forall>j<4. \<not> scored_line (drop j ''The score is 14/20'')"
    using b by (simp only: none_below)
  have d': "\<forall>i\<le>length ''no rating''. \<not> score_at (drop i ''no rating'')"
    using d by (simp only: none_upto)
  from score_presence [of "''The score is 14/20''" 4] a b' c
  have e: "extract_score ''The score is 14/20'' = Some 14"
    by simp
  from score_presence [of "''no rating''" 0] d'
  have f: "extract_score ''no rating'' = None"
    by blast
  from a b d e f show ?thesis by blast
qed

text \<open>
  C4 as written fails: in "score: -5" the lazy wildcard takes the colon, the blank and
  the minus sign, and the digit pattern matches the 5.
\<close>

theorem negative_score_text_counterexample:
  "extract_score ''score: -5'' = Some 5"
  by code_simp

text \<open>
  C4, amended. For a text holding "score: -5", with no earlier occurrence of the word
  followed by a digit, the score is present: it is 5, or 20 when a further digit
  follows the 5 at once (the two digits then read 50 or more).
\<close>

theorem negative_score_text:
  assumes "\<forall>i<length pre. \<not> score_then_number (drop i (pre @ ''score: -5'' @ post))"
  shows "extract_score (pre @ ''score: -5'' @ post) =
           Some (case post of [] \<Rightarrow> 5 | c # _ \<Rightarrow> if is_digit c then 20 else 5)"
proof -
  let ?s = "pre @ ''score: -5'' @ post"
  let ?t = "''score: -5'' @ post"
  have t: "drop (length pre) ?s = ?t"
    by simp
  have at: "score_at ?t"
    by (simp add: score_at_def lower_def lower_char_def)
  have five: "is_digit (CHR ''5'')" and nd: "\<not> is_digit (CHR '':'')" "\<not> is_digit (CHR '' '')"
    "\<not> is_digit (CHR ''-'')"
    by (simp_all add: is_digit_def)
  have line: "rest_of_line ?t = '': -5'' @ takeWhile (\<lambda>c. c \<noteq> newline) post"
    by (simp add: rest_of_line_def newline_def)
  have sl: "scored_line ?t"
    unfolding scored_line_def line using at five by simp
  have fn: "first_number ?t = CHR ''5'' # take 1 (takeWhile is_digit post)"
    unfolding first_number_def line using five nd by (simp add: takeWhile_digit_line)
  have earlier: "\<forall>j<length pre. \<not> scored_line (drop j ?s)"
    using assms scored_line_then_number by blast
  have "extract_score ?s = Some (clamp_score (py_int (first_number (drop (length pre) ?s))))"
    using sl earlier by (intro extract_score_first) (simp_all only: t, simp)
  also have "clamp_score (py_int (first_number (drop (length pre) ?s))) =
      (case post of [] \<Rightarrow> 5 | c # _ \<Rightarrow> if is_digit c then 20 else 5)"
  proof (cases post)
    case Nil
    then show ?thesis
      unfolding t fn by (simp add: py_int_def digit_val_def clamp_score_def)
  next
    case (Cons c cs)
    show ?thesis
    proof (cases "is_digit c")
      case True
      then have "0 \<le> digit_val c"
        by (simp add: is_digit_def digit_val_def)
      with True Cons show ?thesis
        unfolding t fn by (simp add: py_int_def digit_val_def clamp_score_def)
    next
      case False
      with Cons show ?thesis
        unfolding t fn by (simp add: py_int_def digit_val_def clamp_score_def)
    qed
  qed
  finally show ?thesis .
qed

theorem negative_score_text_witness:
  "filter (\<lambda>i. score_then_number (drop i (''Final '' @ ''score: -5'' @ ''/20'')))
     [0..<length ''Final ''] = [] \<and>
   extract_score (''Final '' @ ''score: -5'' @ ''/20'') = Some 5"
proof -
  have h: "filter (\<lambda>i. score_then_number (drop i (''Final '' @ ''score: -5'' @ ''/20'')))
     [0..<length ''Final ''] = []"
    by code_simp
  have h': "\<forall>i<length ''Final ''. \<not> score_then_number (drop i (''Final '' @ ''score: -5'' @ ''/20''))"
    using h by (simp only: none_below)
  have "\<not> is_digit (CHR ''/'')"
    by code_simp
  with negative_score_text [OF h'] h show ?thesis
    by simp
qed

subsection \<open>The scrape URL\<close>

lemma replace_char_map:
  "replace_char old new s = map (\<lambda>c. if c = old then new else c) s"
  by (induction s) auto

text \<open>
  C5. The scrape URL is the fixed template followed by the country with every blank
  replaced by an underscore and nothing else changed, except that "United States",
  "United Kingdom" and "Philippines" are first remapped to "the_United_States",
  "the_United_Kingdom" and "the_Philippines".
\<close>

theorem scrape_url_shape:
  "scrape_url ''United States'' =
     ''https://en.wikipedia.org/wiki/List_of_political_parties_in_the_United_States'' \<and>
   scrape_url ''United Kingdom'' =
     ''https://en.wikipedia.org/wiki/List_of_political_parties_in_the_United_Kingdom'' \<and>
   scrape_url ''Philippines'' =
     ''https://en.wikipedia.org/wiki/List_of_political_parties_in_the_Philippines'' \<and>
   scrape_url ''South Korea'' =
     ''https://en.wikipedia.org/wiki/List_of_political_parties_in_South_Korea'' \<and>
   (country \<notin> {''United States'', ''United Kingdom'', ''Philippines''} \<longrightarrow>
      scrape_url country =
        ''https://en.wikipedia.org/wiki/List_of_political_parties_in_'' @
        map (\<lambda>c. if c = CHR '' '' then CHR ''_'' else c) country)"
proof (intro conjI impI)
  show "scrape_url ''United States'' =
     ''https://en.wikipedia.org/wiki/List_of_political_parties_in_the_United_States''"
    by code_simp
  show "scrape_url ''United Kingdom'' =
     ''https://en.wikipedia.org/wiki/List_of_political_parties_in_the_United_Kingdom''"
    by code_simp
  show "scrape_url ''Philippines'' =
     ''https://en.wikipedia.org/wiki/List_of_political_parties_in_the_Philippines''"
    by code_simp
  show "scrape_url ''South Korea'' =
     ''https://en.wikipedia.org/wiki/List_of_political_parties_in_South_Korea''"
    by code_simp
next
  assume "country \<notin> {''United States'', ''United Kingdom'', ''Philippines''}"
  then have "map_of country_map country = None"
    by (simp add: country_map_def)
  then show "scrape_url country =
        ''https://en.wikipedia.org/wiki/List_of_political_parties_in_'' @
        map (\<lambda>c. if c = CHR '' '' then CHR ''_'' else c) country"
    by (simp add: scrape_url_def dict_get_def url_template_def replace_char_map)
qed

theorem scrape_url_shape_witness:
  "scrape_url ''New Zealand'' =
     ''https://en.wikipedia.org/wiki/List_of_political_parties_in_New_Zealand''"
proof -
  have "''New Zealand'' \<notin> {''United States'', ''United Kingdom'', ''Philippines''}"
    by simp
  with scrape_url_shape [of "''New Zealand''"] show ?thesis
    by simp
qed

subsection \<open>The party list\<close>

lemma collect_titles_eq:
  "collect_titles els acc = acc @ map title_of (filter has_party_title els)"
proof (induction els arbitrary: acc)
  case Nil
  show ?case by simp
next
  case (Cons li rest)
  show ?case
  proof (cases "get_attr li ''title''")
    case None
    with Cons show ?thesis
      by (simp add: has_party_title_def)
  next
    case (Some title)
    have "contains ''party'' (lower []) = False"
      by (simp add: lower_def)
    with Some Cons show ?thesis
      by (auto simp: has_party_title_def title_of_def)
  qed
qed

lemma matches_ul_li_a_eq: "matches_ul_li_a x = (is_anchor (snd x) \<and> li_in_ul (fst x))"
  by (cases x rule: matches_ul_li_a.cases) auto

lemma select_titles:
  "collect_titles (select_ul_li_a doc) [] = qualifying_titles doc"
  by (simp add: collect_titles_eq select_ul_li_a_def qualifying_titles_def filter_map
      comp_def matches_ul_li_a_eq conj_assoc)

lemma li_in_ul_iff: "li_in_ul anc = (\<exists>xs ys. anc = xs @ ''li'' # ys \<and> ''ul'' \<in> set ys)"
proof (induction anc)
  case Nil
  show ?case by simp
next
  case (Cons t ts)
  show ?case
  proof
    assume "li_in_ul (t # ts)"
    then consider "t = ''li''" "''ul'' \<in> set ts" | "li_in_ul ts"
      by auto
    then show "\<exists>xs ys. t # ts = xs @ ''li'' # ys \<and> ''ul'' \<in> set ys"
    proof cases
      case 1
      then have "t # ts = [] @ ''li'' # ts \<and> ''ul'' \<in> set ts" by simp
      then show ?thesis by blast
    next
      case 2
      with Cons obtain xs ys where "ts = xs @ ''li'' # ys" "''ul'' \<in> set ys" by blast
      then have "t # ts = (t # xs) @ ''li'' # ys \<and> ''ul'' \<in> set ys" by simp
      then show ?thesis by blast
    qed
  next
    assume "\<exists>xs ys. t # ts = xs @ ''li'' # ys \<and> ''ul'' \<in> set ys"
    then obtain xs ys where d: "t # ts = xs @ ''li'' # ys" and u: "''ul'' \<in> set ys" by blast
    show "li_in_ul (t # ts)"
    proof (cases xs)
      case Nil
      with d u show ?thesis by simp
    next
      case (Cons x xs')
      with d have "ts = xs' @ ''li'' # ys" by simp
      with u Cons.IH have "li_in_ul ts" by blast
      then show ?thesis by simp
    qed
  qed
qed

lemma contains_iff: "contains sub s = (\<exists>pre post. s = pre @ sub @ post)"
proof (induction s)
  case Nil
  show ?case by auto
next
  case (Cons c cs)
  show ?case
  proof
    assume "contains sub (c # cs)"
    then consider "take (length sub) (c # cs) = sub" | "contains sub cs" by auto
    then show "\<exists>pre post. c # cs = pre @ sub @ post"
    proof cases
      case 1
      then have "c # cs = [] @ sub @ drop (length sub) (c # cs)"
        by (metis append_Nil append_take_drop_id)
      then show ?thesis by blast
    next
      case 2
      with Cons obtain pre post where "cs = pre @ sub @ post" by blast
      then have "c # cs = (c # pre) @ sub @ post" by simp
      then show ?thesis by blast
    qed
  next
    assume "\<exists>pre post. c # cs = pre @ sub @ post"
    then obtain pre post where d: "c # cs = pre @ sub @ post" by blast
    show "contains sub (c # cs)"
    proof (cases pre)
      case Nil
      with d have "take (length sub) (c # cs) = sub" by simp
      then show ?thesis by simp
    next
      case (Cons x pre')
      with d have "cs = pre' @ sub @ post" by simp
      with Cons.IH have "contains sub cs" by blast
      then show ?thesis by simp
    qed
  qed
qed

lemma lower_infix:
  "(\<exists>pre post. lower t = pre @ p @ post) = (\<exists>pre w post. t = pre @ w @ post \<and> lower w = p)"
proof
  assume "\<exists>pre post. lower t = pre @ p @ post"
  then obtain pre post where "map lower_char t = pre @ (p @ post)"
    by (auto simp: lower_def)
  then have "\<exists>us vs. t = us @ vs \<and> pre = map lower_char us \<and> p @ post = map lower_char vs"
    by (simp only: map_eq_append_conv)
  then obtain us vs where t: "t = us @ vs" and v: "map lower_char vs = p @ post"
    by metis
  from v have "\<exists>w ws. vs = w @ ws \<and> p = map lower_char w \<and> post = map lower_char ws"
    by (simp only: map_eq_append_conv)
  then obtain w ws where "vs = w @ ws" and "map lower_char w = p"
    by metis
  with t have "t = us @ w @ ws \<and> lower w = p"
    by (simp add: lower_def)
  then show "\<exists>pre w post. t = pre @ w @ post \<and> lower w = p"
    by blast
next
  assume "\<exists>pre w post. t = pre @ w @ post \<and> lower w = p"
  then obtain pre w post where "t = pre @ w @ post" and "lower w = p"
    by blast
  then have "lower t = lower pre @ p @ lower post"
    by (auto simp: lower_def)
  then show "\<exists>pre post. lower t = pre @ p @ post"
    by blast
qed

text \<open>
  C6 as written fails for an anchor in a list item of an ordered list: the selector
  takes list items of unordered lists only.
\<close>

theorem party_list_counterexample:
  "list_item_titles
     [Element ''ol'' [] [Element ''li'' [] [Element ''a'' [(''title'', ''Green Party'')] []]]] =
     [''Green Party''] \<and>
   scrape_party_info
     (\<lambda>url. Inr \<lparr>status_code = 200, document =
        [Element ''ol'' [] [Element ''li'' [] [Element ''a'' [(''title'', ''Green Party'')] []]]]\<rparr>)
     ''Canada'' = Inr []"
  by code_simp

text \<open>
  C6, amended. For every fetched page the lister returns the first 5 qualifying anchor
  titles in document order, and all of them when there are at most 5; it never returns
  more than 5. An anchor qualifies when it is nested in a list item that is itself nested
  in an unordered list, has a title attribute, and the title contains "party" in any
  letter case.
\<close>

theorem party_list:
  assumes "http_get (scrape_url country) = Inr r"
  shows "scrape_party_info http_get country = Inr (take 5 (qualifying_titles (document r))) \<and>
    length (take 5 (qualifying_titles (document r))) \<le> 5 \<and>
    (length (qualifying_titles (document r)) \<le> 5 \<longrightarrow>
       scrape_party_info http_get country = Inr (qualifying_titles (document r))) \<and>
    li_in_ul anc = (\<exists>xs ys. anc = xs @ ''li'' # ys \<and> ''ul'' \<in> set ys) \<and>
    has_party_title el =
      (\<exists>t pre w post. get_attr el ''title'' = Some t \<and> t = pre @ w @ post \<and> lower w = ''party'')"
proof -
  have s: "scrape_party_info http_get country = Inr (take 5 (qualifying_titles (document r)))"
    using assms by (simp add: scrape_party_info_def select_titles)
  have p: "has_party_title el =
      (\<exists>t pre w post. get_attr el ''title'' = Some t \<and> t = pre @ w @ post \<and> lower w = ''party'')"
  proof (cases "get_attr el ''title''")
    case None
    then show ?thesis by (simp add: has_party_title_def)
  next
    case (Some t)
    then have "has_party_title el = (\<exists>pre post. lower t = pre @ ''party'' @ post)"
      by (simp only: has_party_title_def contains_iff option.case)
    also have "\<dots> = (\<exists>pre w post. t = pre @ w @ post \<and> lower w = ''party'')"
      by (rule lower_infix)
    finally show ?thesis
      using Some by simp
  qed
  have l: "li_in_ul anc = (\<exists>xs ys. anc = xs @ ''li'' # ys \<and> ''ul'' \<in> set ys)"
    by (rule li_in_ul_iff)
  have n: "length (take 5 (qualifying_titles (document r))) \<le> 5"
    by simp
  have f: "length (qualifying_titles (document r)) \<le> 5 \<longrightarrow>
       scrape_party_info http_get country = Inr (qualifying_titles (document r))"
    using s by simp
  from s n f l p show ?thesis
    by (intro conjI)
qed

theorem party_list_witness:
  "scrape_party_info
     (\<lambda>url. Inr \<lparr>status_code = 200, document =
        [Element ''ul'' []
           (map (\<lambda>t. Element ''li'' [] [Element ''a'' [(''title'', t)] [Text t]])
              [''A Party'', ''B party'', ''Main Page'', ''C PARTY'', ''D Party (X)'', ''E Party'',
               ''F Party''])]\<rparr>)
     ''Canada'' = Inr [''A Party'', ''B party'', ''C PARTY'', ''D Party (X)'', ''E Party'']"
proof -
  let ?r = "\<lparr>status_code = 200, document =
        [Element ''ul'' []
           (map (\<lambda>t. Element ''li'' [] [Element ''a'' [(''title'', t)] [Text t]])
              [''A Party'', ''B party'', ''Main Page'', ''C PARTY'', ''D Party (X)'', ''E Party'',
               ''F Party''])]\<rparr>"
  have q: "take 5 (qualifying_titles (document ?r)) =
     [''A Party'', ''B party'', ''C PARTY'', ''D Party (X)'', ''E Party'']"
    by code_simp
  have "(\<lambda>url. Inr ?r) (scrape_url ''Canada'') = (Inr ?r :: exn + response)"
    by simp
  from party_list [OF this] q show ?thesis
    by simp
qed

subsection \<open>The evaluation loop\<close>

lemma update_same_keys:
  "map fst al = map fst bl \<Longrightarrow> map fst (AList.update k v al) = map fst (AList.update k w bl)"
  by (simp add: update_keys)

lemma evaluate_loop_keys:
  "evaluate_loop client country n parties (pa, ps) = Inr (pa', ps') \<Longrightarrow>
   map fst pa = map fst ps \<Longrightarrow>
   map fst pa' = map fst ps' \<and> fst ` set pa' = fst ` set pa \<union> set parties"
proof (induction parties arbitrary: n pa ps)
  case Nil
  then show ?case by simp
next
  case (Cons party rest)
  from Cons.prems(1) obtain content where
    c: "client n party country = Content (Some content)" and
    r: "evaluate_loop client country (Suc n) rest
          (AList.update party content pa, AList.update party (extract_score content) ps) =
        Inr (pa', ps')"
    by (auto split: reply.splits option.splits)
  have k: "map fst (AList.update party content pa) =
           map fst (AList.update party (extract_score content) ps)"
    using Cons.prems(2) by (rule update_same_keys)
  from Cons.IH [OF r k]
  have "map fst pa' = map fst ps'" and
    "fst ` set pa' = fst ` set (AList.update party content pa) \<union> set rest"
    by blast+
  then show ?case
    by (simp only: dom_update) auto
qed

lemma evaluate_loop_all_content:
  "evaluate_loop client country n parties st = Inr r \<Longrightarrow> j < length parties \<Longrightarrow>
   \<exists>text. client (n + j) (parties ! j) country = Content (Some text)"
proof (induction parties arbitrary: n st j)
  case Nil
  then show ?case by simp
next
  case (Cons party rest)
  obtain pa ps where st: "st = (pa, ps)" by (cases st)
  from Cons.prems(1) st obtain content where
    c: "client n party country = Content (Some content)" and
    r: "evaluate_loop client country (Suc n) rest
          (AList.update party content pa, AList.update party (extract_score content) ps) = Inr r"
    by (auto split: reply.splits option.splits)
  show ?case
  proof (cases j)
    case 0
    with c show ?thesis by simp
  next
    case (Suc i)
    with Cons.prems(2) have "i < length rest" by simp
    from Cons.IH [OF r this] Suc show ?thesis by simp
  qed
qed

lemma evaluate_loop_first_raise:
  "k < length parties \<Longrightarrow>
   (\<forall>j<k. \<exists>text. client (n + j) (parties ! j) country = Content (Some text)) \<Longrightarrow>
   client (n + k) (parties ! k) country = Raises e \<Longrightarrow>
   evaluate_loop client country n parties st = Inl e"
proof (induction parties arbitrary: n st k)
  case Nil
  then show ?case by simp
next
  case (Cons party rest)
  obtain pa ps where st: "st = (pa, ps)" by (cases st)
  show ?case
  proof (cases k)
    case 0
    with Cons.prems(3) st show ?thesis by simp
  next
    case (Suc i)
    from Cons.prems(2) Suc obtain content where
      c: "client n party country = Content (Some content)"
      by (auto dest: spec [of _ 0])
    have a: "i < length rest" using Cons.prems(1) Suc by simp
    have b: "\<forall>j<i. \<exists>text. client (Suc n + j) (rest ! j) country = Content (Some text)"
    proof (intro allI impI)
      fix j assume "j < i"
      then have "Suc j < k" using Suc by simp
      with Cons.prems(2) have "\<exists>text. client (n + Suc j) ((party # rest) ! Suc j) country = Content (Some text)"
        by blast
      then show "\<exists>text. client (Suc n + j) (rest ! j) country = Content (Some text)"
        by simp
    qed
    have d: "client (Suc n + i) (rest ! i) country = Raises e"
      using Cons.prems(3) Suc by simp
    from Cons.IH [OF a b d] c st show ?thesis by simp
  qed
qed

text \<open>
  C8. When the generation-service call for some party raises, the evaluation aborts at
  the first exception: \<^verbatim>\<open>evaluate_parties\<close> ends with that exception and returns no
  result mappings, neither for the parties before the failing one nor for those after.
\<close>

theorem evaluation_aborts:
  "(k < length parties \<and>
    (\<forall>j<k. \<exists>text. client j (parties ! j) country = Content (Some text)) \<and>
    client k (parties ! k) country = Raises e \<longrightarrow>
      evaluate_parties client parties country = Inl e) \<and>
   (k < length parties \<and> client k (parties ! k) country = Raises e \<longrightarrow>
      (\<forall>r. evaluate_parties client parties country \<noteq> Inr r))"
proof (intro conjI impI allI)
  assume a: "k < length parties \<and>
    (\<forall>j<k. \<exists>text. client j (parties ! j) country = Content (Some text)) \<and>
    client k (parties ! k) country = Raises e"
  show "evaluate_parties client parties country = Inl e"
    unfolding evaluate_parties_def
    using a by (intro evaluate_loop_first_raise [of k]) simp_all
next
  fix r
  assume a: "k < length parties \<and> client k (parties ! k) country = Raises e"
  show "evaluate_parties client parties country \<noteq> Inr r"
  proof
    assume "evaluate_parties client parties country = Inr r"
    then have "evaluate_loop client country 0 parties ([], []) = Inr r"
      by (simp add: evaluate_parties_def)
    from evaluate_loop_all_content [OF this, of k] a show False
      by simp
  qed
qed

theorem evaluation_aborts_witness:
  "evaluate_parties
     (\<lambda>n party country. if n = 1 then Raises APIError else Content (Some ''Score: 12''))
     [''Red Party'', ''Blue Party'', ''Green Party''] ''Canada'' = Inl APIError"
proof -
  let ?client = "\<lambda>n (party::string) (country::string).
     if n = (1::nat) then Raises APIError else Content (Some ''Score: 12'')"
  let ?parties = "[''Red Party'', ''Blue Party'', ''Green Party'']"
  have a: "(1::nat) < length ?parties"
    by simp
  have b: "\<forall>j<(1::nat). \<exists>text. ?client j (?parties ! j) ''Canada'' = Content (Some text)"
    by simp
  have c: "?client 1 (?parties ! 1) ''Canada'' = Raises APIError"
    by simp
  from evaluation_aborts [of 1 ?parties ?client "''Canada''" APIError] a b c
  show ?thesis by blast
qed

text \<open>
  C10. The two mappings that \<^verbatim>\<open>evaluate_parties\<close> returns have the same keys, in
  the same order: the parties of the input list, each with an analysis and with a score
  entry, present or absent.
\<close>

theorem same_keys:
  assumes "evaluate_parties client parties country = Inr (analysis, scores)"
  shows "map fst analysis = map fst scores \<and> fst ` set analysis = set parties \<and>
         fst ` set scores = set parties"
proof -
  from assms have "evaluate_loop client country 0 parties ([], []) = Inr (analysis, scores)"
    by (simp add: evaluate_parties_def)
  from evaluate_loop_keys [OF this]
  have m: "map fst analysis = map fst scores" and a: "fst ` set analysis = set parties"
    by simp_all
  from m have "set (map fst analysis) = set (map fst scores)"
    by (rule arg_cong)
  then have "fst ` set analysis = fst ` set scores"
    by (simp only: set_map)
  with m a show ?thesis
    by simp
qed

theorem same_keys_witness:
  "evaluate_parties (\<lambda>n party country. Content (Some (if n = 1 then ''unclear'' else ''Score: 12'')))
     [''Red Party'', ''Blue Party'', ''Red Party''] ''Canada'' =
     Inr ([(''Red Party'', ''Score: 12''), (''Blue Party'', ''unclear'')],
          [(''Red Party'', Some 12), (''Blue Party'', None)]) \<and>
   map fst [(''Red Party'', ''Score: 12''), (''Blue Party'', ''unclear'')] =
   map fst [(''Red Party'', Some (12::int)), (''Blue Party'', None)] \<and>
   fst ` set [(''Red Party'', Some (12::int)), (''Blue Party'', None)] =
   set [''Red Party'', ''Blue Party'', ''Red Party'']"
proof -
  have e: "evaluate_parties (\<lambda>n party country. Content (Some (if n = 1 then ''unclear'' else ''Score: 12'')))
     [''Red Party'', ''Blue Party'', ''Red Party''] ''Canada'' =
     Inr ([(''Red Party'', ''Score: 12''), (''Blue Party'', ''unclear'')],
          [(''Red Party'', Some 12), (''Blue Party'', None)])"
    by code_simp
  from same_keys [OF e] e show ?thesis
    by blast
qed

subsection \<open>The Analyze action\<close>

lemma valid_scores_set:
  "set (valid_scores scores) = {(k, v). (k, Some v) \<in> set scores}"
  by (induction scores rule: valid_scores.induct) auto

lemma valid_scores_order:
  "map fst (valid_scores scores) = map fst (filter (\<lambda>kv. snd kv \<noteq> None) scores)"
  by (induction scores rule: valid_scores.induct) auto

text \<open>
  C9. The bar chart is built from exactly the parties whose score is present, in the
  order of the scores mapping: these are the bars handed to the plotting calls, and the
  bars of every chart that is shown; when the plotting raises, the exception ends the
  action and no chart is shown. When no party has a present score, the warning is shown
  in place of the chart and nothing is plotted.
\<close>

theorem chart_or_warning:
  "((k, Some v) \<in> set scores \<and> plot (valid_scores scores) = None \<longrightarrow>
      render_scores plot scores = ([Header_scores, Pyplot (valid_scores scores)], None)) \<and>
   ((k, Some v) \<in> set scores \<and> plot (valid_scores scores) = Some e \<longrightarrow>
      render_scores plot scores = ([Header_scores], Some e)) \<and>
   set (valid_scores scores) = {(k, v). (k, Some v) \<in> set scores} \<and>
   map fst (valid_scores scores) = map fst (filter (\<lambda>kv. snd kv \<noteq> None) scores) \<and>
   ((\<forall>kv\<in>set scores. snd kv = None) \<longrightarrow>
      render_scores plot scores = ([Header_scores, Warning_no_scores], None)) \<and>
   (Pyplot bars \<in> set (fst (render_scores plot scores)) \<longrightarrow>
      bars = valid_scores scores \<and> bars \<noteq> []) \<and>
   (scrape_party_info http_get country = Inr parties \<and>
    evaluate_parties client parties country = Inr (results, scores) \<longrightarrow>
      analyze http_get client plot country =
        ([Spinner_scraping, Success_found (length parties), Write_parties parties,
          Spinner_evaluating, Header_results] @ render_results results @
         fst (render_scores plot scores),
         snd (render_scores plot scores)))"
proof (intro conjI impI)
  assume a: "(k, Some v) \<in> set scores \<and> plot (valid_scores scores) = None"
  then have "(k, v) \<in> set (valid_scores scores)"
    by (simp add: valid_scores_set)
  then have "valid_scores scores \<noteq> []"
    by auto
  with a show "render_scores plot scores = ([Header_scores, Pyplot (valid_scores scores)], None)"
    by (simp add: render_scores_def)
next
  assume a: "(k, Some v) \<in> set scores \<and> plot (valid_scores scores) = Some e"
  then have "(k, v) \<in> set (valid_scores scores)"
    by (simp add: valid_scores_set)
  then have "valid_scores scores \<noteq> []"
    by auto
  with a show "render_scores plot scores = ([Header_scores], Some e)"
    by (simp add: render_scores_def)
next
  show "set (valid_scores scores) = {(k, v). (k, Some v) \<in> set scores}"
    by (rule valid_scores_set)
next
  show "map fst (valid_scores scores) = map fst (filter (\<lambda>kv. snd kv \<noteq> None) scores)"
    by (rule valid_scores_order)
next
  assume "\<forall>kv\<in>set scores. snd kv = None"
  then have "set (valid_scores scores) = {}"
    unfolding valid_scores_set by fastforce
  then show "render_scores plot scores = ([Header_scores, Warning_no_scores], None)"
    by (simp add: render_scores_def)
next
  assume p: "Pyplot bars \<in> set (fst (render_scores plot scores))"
  show "bars = valid_scores scores"
    using p by (auto simp: render_scores_def Let_def split: if_splits option.splits)
  show "bars \<noteq> []"
    using p by (auto simp: render_scores_def Let_def split: if_splits option.splits)
next
  assume "scrape_party_info http_get country = Inr parties \<and>
    evaluate_parties client parties country = Inr (results, scores)"
  then show "analyze http_get client plot country =
        ([Spinner_scraping, Success_found (length parties), Write_parties parties,
          Spinner_evaluating, Header_results] @ render_results results @
         fst (render_scores plot scores),
         snd (render_scores plot scores))"
    by (simp add: analyze_def split: prod.splits)
qed

theorem chart_or_warning_witness:
  "render_scores (\<lambda>bars. if ''Party $$'' \<in> set (map fst bars) then Some ValueError else None)
     [(''Red Party'', Some 0), (''Blue Party'', None), (''Green Party'', Some 18)] =
     ([Header_scores, Pyplot [(''Red Party'', 0), (''Green Party'', 18)]], None) \<and>
   render_scores (\<lambda>bars. if ''Party $$'' \<in> set (map fst bars) then Some ValueError else None)
     [(''Red Party'', Some 3), (''Party $$'', Some 7)] = ([Header_scores], Some ValueError) \<and>
   render_scores (\<lambda>bars. if ''Party $$'' \<in> set (map fst bars) then Some ValueError else None)
     [(''Red Party'', None), (''Blue Party'', None)] =
     ([Header_scores, Warning_no_scores], None) \<and>
   valid_scores [(''Red Party'', Some 0), (''Blue Party'', None), (''Green Party'', Some 18)] =
     [(''Red Party'', 0), (''Green Party'', 18)] \<and>
   analyze
     (\<lambda>url. Inr \<lparr>status_code = 200, document =
        [Element ''ul'' [] [Element ''li'' [] [Element ''a'' [(''title'', ''Party $$'')] []]]]\<rparr>)
     (\<lambda>n party country. Content (Some ''Score: 7''))
     (\<lambda>bars. if ''Party $$'' \<in> set (map fst bars) then Some ValueError else None)
     ''Canada'' =
     ([Spinner_scraping, Success_found 1, Write_parties [''Party $$''], Spinner_evaluating,
       Header_results, Subheader ''Party $$'', Markdown ''Score: 7'', Header_scores],
      Some ValueError)"
proof -
  let ?plot = "\<lambda>bars :: (string \<times> int) list.
     if ''Party $$'' \<in> set (map fst bars) then Some ValueError else None"
  let ?s1 = "[(''Red Party'', Some (0::int)), (''Blue Party'', None), (''Green Party'', Some 18)]"
  let ?s2 = "[(''Red Party'', None :: int option), (''Blue Party'', None)]"
  let ?s3 = "[(''Red Party'', Some (3::int)), (''Party $$'', Some 7)]"
  let ?s4 = "[(''Party $$'', Some (7::int))]"
  let ?b1 = "[(''Red Party'', 0::int), (''Green Party'', 18)]"
  let ?get = "\<lambda>url :: string. Inr \<lparr>status_code = 200, document =
        [Element ''ul'' [] [Element ''li'' [] [Element ''a'' [(''title'', ''Party $$'')] []]]]\<rparr>
        :: exn + response"
  let ?client = "\<lambda>(n::nat) (party::string) (country::string). Content (Some ''Score: 7'')"
  have v1: "valid_scores ?s1 = ?b1"
    by simp
  have a1: "(''Red Party'', Some 0) \<in> set ?s1 \<and> ?plot (valid_scores ?s1) = None"
    by code_simp
  have "render_scores ?plot ?s1 = ([Header_scores, Pyplot (valid_scores ?s1)], None)"
    using chart_or_warning [of "''Red Party''" 0 ?s1 ?plot, THEN conjunct1] a1
    by (rule mp)
  then have c1: "render_scores ?plot ?s1 = ([Header_scores, Pyplot ?b1], None)"
    by (simp only: v1)
  have m: "Pyplot ?b1 \<in> set (fst (render_scores ?plot ?s1))"
    by (simp only: c1) simp
  have "?b1 = valid_scores ?s1 \<and> ?b1 \<noteq> []"
    using chart_or_warning [of _ _ ?s1 ?plot _ ?b1, THEN conjunct2, THEN conjunct2,
        THEN conjunct2, THEN conjunct2, THEN conjunct2, THEN conjunct1] m
    by (rule mp)
  then have c4: "valid_scores ?s1 = ?b1"
    by (simp only:)
  have a3: "(''Party $$'', Some 7) \<in> set ?s3 \<and> ?plot (valid_scores ?s3) = Some ValueError"
    by code_simp
  have c2: "render_scores ?plot ?s3 = ([Header_scores], Some ValueError)"
    using chart_or_warning [of "''Party $$''" 7 ?s3 ?plot ValueError, THEN conjunct2,
        THEN conjunct1] a3
    by (rule mp)
  have b: "\<forall>kv\<in>set ?s2. snd kv = None"
    by simp
  have c3: "render_scores ?plot ?s2 = ([Header_scores, Warning_no_scores], None)"
    using chart_or_warning [of _ _ ?s2 ?plot, THEN conjunct2, THEN conjunct2, THEN conjunct2,
        THEN conjunct2, THEN conjunct1] b
    by (rule mp)
  have p: "scrape_party_info ?get ''Canada'' = Inr [''Party $$'']"
    by code_simp
  have e: "evaluate_parties ?client [''Party $$''] ''Canada'' =
      Inr ([(''Party $$'', ''Score: 7'')], ?s4)"
    by code_simp
  have r: "render_scores ?plot ?s4 = ([Header_scores], Some ValueError)"
    by code_simp
  from p e have pe: "scrape_party_info ?get ''Canada'' = Inr [''Party $$''] \<and>
      evaluate_parties ?client [''Party $$''] ''Canada'' =
      Inr ([(''Party $$'', ''Score: 7'')], ?s4)"
    by (rule conjI)
  have "analyze ?get ?client ?plot ''Canada'' =
     ([Spinner_scraping, Success_found (length [''Party $$'']), Write_parties [''Party $$''],
       Spinner_evaluating, Header_results] @
      render_results [(''Party $$'', ''Score: 7'')] @
      fst (render_scores ?plot ?s4),
      snd (render_scores ?plot ?s4))"
    using chart_or_warning [of _ _ ?s4 ?plot _ _ ?get "''Canada''"
      "[''Party $$'']" ?client "[(''Party $$'', ''Score: 7'')]", THEN conjunct2, THEN conjunct2,
        THEN conjunct2, THEN conjunct2, THEN conjunct2, THEN conjunct2] pe
    by (rule mp)
  then have c5: "analyze ?get ?client ?plot ''Canada'' =
     ([Spinner_scraping, Success_found 1, Write_parties [''Party $$''], Spinner_evaluating,
       Header_results, Subheader ''Party $$'', Markdown ''Score: 7'', Header_scores],
      Some ValueError)"
    by (simp only: r) simp
  from c1 c2 c3 c4 c5 show ?thesis
    by (intro conjI)
qed

text \<open>
  C7 as written fails for a non-success HTTP status: the status code is never read, the
  error page is parsed like any page, no message reports the failure and the action goes
  on to the evaluation.
\<close>

theorem fetch_failure_counterexample:
  "analyze
     (\<lambda>url. Inr \<lparr>status_code = 404, document =
        [Element ''ul'' [] [Element ''li'' [] [Element ''a'' [(''title'', ''Party'')] []]]]\<rparr>)
     (\<lambda>n party country. Content (Some ''unclear'')) (\<lambda>bars. None) ''Narnia'' =
     ([Spinner_scraping, Success_found 1, Write_parties [''Party''], Spinner_evaluating,
       Header_results, Subheader ''Party'', Markdown ''unclear'', Header_scores,
       Warning_no_scores], None)"
  by code_simp

text \<open>
  C7, amended. A network error of the scrape is not caught: the exception ends the
  Analyze action before the party evaluation. A non-success HTTP status is not
  detected: the action does what it does for a success status with the same body, and
  goes on to the party evaluation with the list scraped from that body.
\<close>

theorem fetch_failure:
  "(http_get (scrape_url country) = Inl e \<longrightarrow>
      analyze http_get client plot country = ([Spinner_scraping], Some e)) \<and>
   (http_get (scrape_url country) = Inr r \<longrightarrow>
      analyze http_get client plot country =
        analyze (\<lambda>url. Inr (r\<lparr>status_code := 200\<rparr>)) client plot country \<and>
      Spinner_evaluating \<in> set (fst (analyze http_get client plot country)))"
proof (intro conjI impI)
  assume "http_get (scrape_url country) = Inl e"
  then show "analyze http_get client plot country = ([Spinner_scraping], Some e)"
    by (simp add: analyze_def scrape_party_info_def)
next
  assume r: "http_get (scrape_url country) = Inr r"
  then have s: "scrape_party_info http_get country =
      scrape_party_info (\<lambda>url. Inr (r\<lparr>status_code := 200\<rparr>)) country"
    by (simp add: scrape_party_info_def)
  show "analyze http_get client plot country =
        analyze (\<lambda>url. Inr (r\<lparr>status_code := 200\<rparr>)) client plot country"
    unfolding analyze_def s ..
  show "Spinner_evaluating \<in> set (fst (analyze http_get client plot country))"
    using r by (simp add: analyze_def scrape_party_info_def Let_def split: sum.splits prod.splits)
qed

theorem fetch_failure_witness:
  "analyze (\<lambda>url. Inl ConnectionError) (\<lambda>n party country. Content (Some ''unclear''))
     (\<lambda>bars. None) ''Canada'' = ([Spinner_scraping], Some ConnectionError) \<and>
   analyze (\<lambda>url. Inr \<lparr>status_code = 503, document = []\<rparr>)
     (\<lambda>n party country. Content (Some ''unclear'')) (\<lambda>bars. None) ''Canada'' =
   analyze (\<lambda>url. Inr \<lparr>status_code = 200, document = []\<rparr>)
     (\<lambda>n party country. Content (Some ''unclear'')) (\<lambda>bars. None) ''Canada'' \<and>
   Spinner_evaluating \<in> set (fst (analyze (\<lambda>url. Inr \<lparr>status_code = 503, document = []\<rparr>)
     (\<lambda>n party country. Content (Some ''unclear'')) (\<lambda>bars. None) ''Canada''))"
proof -
  let ?client = "\<lambda>(n::nat) (party::string) (country::string). Content (Some ''unclear'')"
  let ?plot = "\<lambda>bars :: (string \<times> int) list. None :: exn option"
  let ?down = "\<lambda>url :: string. Inl ConnectionError :: exn + response"
  let ?r = "\<lparr>status_code = 503, document = []\<rparr>"
  let ?busy = "\<lambda>url :: string. Inr ?r :: exn + response"
  have a: "?down (scrape_url ''Canada'') = Inl ConnectionError"
    by simp
  have b: "?busy (scrape_url ''Canada'') = Inr ?r"
    by simp
  from fetch_failure [of ?down "''Canada''" ConnectionError ?client ?plot] a
  have c1: "analyze ?down ?client ?plot ''Canada'' = ([Spinner_scraping], Some ConnectionError)"
    by blast
  from fetch_failure [of ?busy "''Canada''" _ ?client ?plot ?r] b
  have c2: "analyze ?busy ?client ?plot ''Canada'' =
      analyze (\<lambda>url. Inr (?r\<lparr>status_code := 200\<rparr>)) ?client ?plot ''Canada''"
    and c3: "Spinner_evaluating \<in> set (fst (analyze ?busy ?client ?plot ''Canada''))"
    by blast+
  from c1 c2 c3 show ?thesis
    by simp
qed

subsection \<open>Module initialisation\<close>

text \<open>
  C2 as written fails when the secrets store holds no key: line 14 raises first, and the
  exception is not a NameError.
\<close>

theorem module_init_counterexample:
  "module_init \<lparr>secrets = Map.empty, environ = [''OPENAI_API_KEY'' \<mapsto> ''sk-env'']\<rparr> = Inl KeyError"
  by (simp add: module_init_def module_top_def lookup_name_def)

text \<open>
  C2, amended. Module initialisation never completes. When the secrets store holds the
  key, the key is read and the next line raises NameError, since \<^verbatim>\<open>os\<close> is never
  imported; when the store lacks the key, the read itself raises. In no execution is a
  client built, so the key of the secrets store is never used by a request.
\<close>

theorem module_init_fails:
  "(secrets w ''OPENAI_API_KEY'' = Some key \<longrightarrow> module_init w = Inl NameError) \<and>
   (secrets w ''OPENAI_API_KEY'' = None \<longrightarrow> module_init w = Inl KeyError) \<and>
   (\<forall>globals. module_init w \<noteq> Inr globals)"
proof -
  have a: "secrets w ''OPENAI_API_KEY'' = Some key \<Longrightarrow> module_init w = Inl NameError" for key
    by (simp add: module_init_def module_top_def lookup_name_def)
  have b: "secrets w ''OPENAI_API_KEY'' = None \<Longrightarrow> module_init w = Inl KeyError"
    by (simp add: module_init_def module_top_def lookup_name_def)
  have "\<forall>globals. module_init w \<noteq> Inr globals"
  proof (cases "secrets w ''OPENAI_API_KEY''")
    case None
    with b show ?thesis by simp
  next
    case (Some k)
    with a show ?thesis by simp
  qed
  with a b show ?thesis
    by blast
qed

theorem module_init_fails_witness:
  "module_init \<lparr>secrets = [''OPENAI_API_KEY'' \<mapsto> ''sk-secret''],
                environ = [''OPENAI_API_KEY'' \<mapsto> ''sk-env'']\<rparr> = Inl NameError \<and>
   module_init \<lparr>secrets = Map.empty, environ = Map.empty\<rparr> = Inl KeyError"
proof -
  let ?w = "\<lparr>secrets = [''OPENAI_API_KEY'' \<mapsto> ''sk-secret''],
                environ = [''OPENAI_API_KEY'' \<mapsto> ''sk-env'']\<rparr>"
  let ?v = "\<lparr>secrets = Map.empty :: string \<rightharpoonup> string, environ = Map.empty :: string \<rightharpoonup> string\<rparr>"
  have a: "secrets ?w ''OPENAI_API_KEY'' = Some ''sk-secret''"
    by simp
  have b: "secrets ?v ''OPENAI_API_KEY'' = None"
    by simp
  from module_init_fails [of ?w "''sk-secret''"] a
  have c1: "module_init ?w = Inl NameError"
    by blast
  from module_init_fails [of ?v] b
  have c2: "module_init ?v = Inl KeyError"
    by blast
  from c1 c2 show ?thesis
    by (intro conjI)
qed

end
